theory Spec2Isabelle
  imports Main
begin

section \<open>Strings\<close>

text \<open>
  Python strings are modelled as \<^typ>\<open>string\<close>; a \<^typ>\<open>char\<close> stands for a code point
  below 256. \<open>isspace\<close> lists the code points below 256 for which Python's
  \<open>str.isspace\<close> holds, so \<open>strip\<close> is \<open>str.strip()\<close> and \<open>lower\<close> is \<open>str.lower()\<close>
  on such strings.
\<close>

definition isspace :: "char \<Rightarrow> bool" where
  "isspace c = (let n = (of_char c :: nat) in
     (9 \<le> n \<and> n \<le> 13) \<or> (28 \<le> n \<and> n \<le> 32) \<or> n = 133 \<or> n = 160)"

definition strip :: "string \<Rightarrow> string" where
  "strip s = rev (dropWhile isspace (rev (dropWhile isspace s)))"

definition lower_char :: "char \<Rightarrow> char" where
  "lower_char c = (let n = (of_char c :: nat) in
     if (65 \<le> n \<and> n \<le> 90) \<or> (192 \<le> n \<and> n \<le> 222 \<and> n \<noteq> 215)
     then char_of (n + 32) else c)"

definition lower :: "string \<Rightarrow> string" where
  "lower s = map lower_char s"

section \<open>The document store\<close>

text \<open>
  A Firestore value is a string or a nested map (the only kinds of value the two
  programs write); a document is a map from field names to values; a collection is the
  list of its documents with their identifiers, in the order a query streams them.
\<close>

datatype fsval = Str string | Dict "string \<Rightarrow> fsval option"

type_synonym doc = "string \<Rightarrow> fsval option"

type_synonym collection = "(string \<times> doc) list"

record store =
  drivers :: collection
  deliveries :: collection

text \<open>\<open>document(k).set(d)\<close>: replaces the document, or creates it.\<close>

fun set_doc :: "string \<Rightarrow> doc \<Rightarrow> collection \<Rightarrow> collection" where
  "set_doc k d [] = [(k, d)]"
| "set_doc k d ((k', d') # c) = (if k' = k then (k, d) # c else (k', d') # set_doc k d c)"

text \<open>\<open>document(k).set(d, merge=True)\<close>: the fields of \<open>d\<close> are written over the
  existing document, whose other fields stay; without a document, \<open>d\<close> is created.\<close>

fun set_merge :: "string \<Rightarrow> doc \<Rightarrow> collection \<Rightarrow> collection" where
  "set_merge k d [] = [(k, d)]"
| "set_merge k d ((k', d') # c) =
     (if k' = k then (k, d' ++ d) # c else (k', d') # set_merge k d c)"

text \<open>\<open>document(k).update(...)\<close>: applies the field updates \<open>f\<close> to the document, and
  raises NotFound (here \<open>None\<close>) when there is none.\<close>

fun update_doc :: "string \<Rightarrow> (doc \<Rightarrow> doc) \<Rightarrow> collection \<Rightarrow> collection option" where
  "update_doc k f [] = None"
| "update_doc k f ((k', d') # c) =
     (if k' = k then Some ((k, f d') # c)
      else (case update_doc k f c of None \<Rightarrow> None | Some c' \<Rightarrow> Some ((k', d') # c')))"

text \<open>A dotted field path \<open>k1.k2\<close> in an update writes the entry \<open>k2\<close> of the map stored
  under \<open>k1\<close>, keeping the map's other entries; a missing or non-map \<open>k1\<close> becomes a map
  with that single entry.\<close>

definition set_nested :: "string \<Rightarrow> string \<Rightarrow> fsval \<Rightarrow> doc \<Rightarrow> doc" where
  "set_nested k1 k2 v d =
     d(k1 \<mapsto> Dict ((case d k1 of Some (Dict m) \<Rightarrow> m | _ \<Rightarrow> Map.empty)(k2 \<mapsto> v)))"

definition nested :: "doc \<Rightarrow> string \<Rightarrow> string \<Rightarrow> fsval option" where
  "nested d k1 k2 = (case d k1 of Some (Dict m) \<Rightarrow> m k2 | _ \<Rightarrow> None)"

section \<open>What a page run produces\<close>

text \<open>
  Each program is a Streamlit script: one run reads the widget values, reads and writes
  the store, and renders messages. A run ends by reaching the end of the script
  (or a \<open>return\<close> of the page function), by \<open>st.stop()\<close>, by \<open>st.experimental_rerun()\<close>,
  or by an uncaught exception. Static captions (titles, headers) are left out of the
  rendered output.
\<close>

datatype run_end = Completed | Stopped | Rerun | Raised string

datatype ui_out =
    Info string
  | Success string
  | Warning string
  | Error_msg string
  | Subheader string "fsval option"
  | Write string "fsval option"
  | Driver_line fsval fsval fsval

fun is_error :: "ui_out \<Rightarrow> bool" where
  "is_error (Error_msg m) = True"
| "is_error _ = False"

section \<open>The driver dashboard (drivertest.py)\<close>

text \<open>The widget values of one run: the two text inputs, and the buttons and text areas
  by widget key.\<close>

record driver_ui =
  ui_driver_code :: string
  ui_fcm_token :: string
  ui_button :: "string \<Rightarrow> bool"
  ui_text_area :: "string \<Rightarrow> string"

text \<open>The four lines rendered for a delivery; each shows what \<open>data.get\<close> returns.\<close>

definition display :: "doc \<Rightarrow> ui_out list" where
  "display data =
     [Subheader ''Invoice: '' (data ''invoice_number''),
      Write ''Client: '' (data ''client_name''),
      Write ''Location: '' (data ''location''),
      Write ''Status: '' (data ''status'')]"

text \<open>The field sets passed to \<open>update\<close> in the four branches.\<close>

definition accept_fields :: "string \<Rightarrow> doc \<Rightarrow> doc" where
  "accept_fields now d =
     set_nested ''timestamps'' ''accepted'' (Str now) (d(''status'' \<mapsto> Str ''accepted''))"

definition reject_fields :: "string \<Rightarrow> string \<Rightarrow> doc \<Rightarrow> doc" where
  "reject_fields reason now d =
     set_nested ''timestamps'' ''rejected'' (Str now)
       (d(''status'' \<mapsto> Str ''rejected'', ''rejection_reason'' \<mapsto> Str (strip reason)))"

definition transit_fields :: "string \<Rightarrow> doc \<Rightarrow> doc" where
  "transit_fields now d =
     set_nested ''timestamps'' ''in_transit'' (Str now) (d(''status'' \<mapsto> Str ''in_transit''))"

definition delivered_fields :: "string \<Rightarrow> doc \<Rightarrow> doc" where
  "delivered_fields now d =
     set_nested ''timestamps'' ''delivered'' (Str now) (d(''status'' \<mapsto> Str ''delivered''))"

text \<open>An update of the delivery \<open>doc_id\<close>, its message, and the rerun that ends the run.\<close>

definition write_and_rerun ::
  "string \<Rightarrow> (doc \<Rightarrow> doc) \<Rightarrow> ui_out \<Rightarrow> ui_out list \<Rightarrow> store \<Rightarrow> run_end \<times> ui_out list \<times> store" where
  "write_and_rerun doc_id f m out db =
     (case update_doc doc_id f (deliveries db) of
        None \<Rightarrow> (Raised ''NotFound'', out, db)
      | Some c \<Rightarrow> (Rerun, out @ [m], db\<lparr>deliveries := c\<rparr>))"

text \<open>The loop over the listed deliveries (lines 56 to 100).\<close>

fun deliveries_loop ::
  "driver_ui \<Rightarrow> string \<Rightarrow> collection \<Rightarrow> ui_out list \<Rightarrow> store \<Rightarrow> run_end \<times> ui_out list \<times> store" where
  "deliveries_loop ui now [] out db = (Completed, out, db)"
| "deliveries_loop ui now ((doc_id, data) # rest) out db =
     (let out1 = out @ display data in
      case data ''status'' of
        None \<Rightarrow> (Raised ''KeyError'', out1, db)
      | Some status \<Rightarrow>
          if status = Str ''pending'' then
            if ui_button ui (''a'' @ doc_id) then
              write_and_rerun doc_id (accept_fields now) (Success ''Accepted. Refreshing...'') out1 db
            else if ui_button ui (''r'' @ doc_id)
                    \<and> ui_button ui (''submit_'' @ doc_id)
                    \<and> strip (ui_text_area ui (''reason_'' @ doc_id)) \<noteq> [] then
              write_and_rerun doc_id (reject_fields (ui_text_area ui (''reason_'' @ doc_id)) now)
                (Warning ''Rejected. Refreshing...'') out1 db
            else deliveries_loop ui now rest out1 db
          else if status = Str ''accepted'' then
            if ui_button ui (''t'' @ doc_id) then
              write_and_rerun doc_id (transit_fields now) (Info ''Marked in transit.'') out1 db
            else deliveries_loop ui now rest out1 db
          else if status = Str ''in_transit'' then
            if ui_button ui (''d'' @ doc_id) then
              write_and_rerun doc_id (delivered_fields now) (Success ''Marked delivered.'') out1 db
            else deliveries_loop ui now rest out1 db
          else deliveries_loop ui now rest out1 db)"

text \<open>The query of lines 46 to 49.\<close>

definition listed :: "string \<Rightarrow> doc \<Rightarrow> bool" where
  "listed driver_code d =
     (d ''driver_code'' = Some (Str driver_code)
      \<and> (d ''status'' = Some (Str ''pending'') \<or> d ''status'' = Some (Str ''accepted'')
         \<or> d ''status'' = Some (Str ''in_transit'')))"

definition query_deliveries :: "string \<Rightarrow> collection \<Rightarrow> collection" where
  "query_deliveries driver_code c = filter (\<lambda>(doc_id, d). listed driver_code d) c"

text \<open>Lines 39 to 44: a token that is not empty is merged, with the time, into the
  driver's record.\<close>

definition store_token :: "string \<Rightarrow> string \<Rightarrow> string \<Rightarrow> store \<Rightarrow> store" where
  "store_token driver_code fcm_token now db =
     (if fcm_token \<noteq> [] then
        db\<lparr>drivers := set_merge driver_code
               [''fcm_token'' \<mapsto> Str fcm_token, ''last_seen'' \<mapsto> Str now]
               (drivers db)\<rparr>
      else db)"

text \<open>One run of the script; \<open>now\<close> is \<open>datetime.now().isoformat()\<close>.\<close>

definition driver_page :: "driver_ui \<Rightarrow> string \<Rightarrow> store \<Rightarrow> run_end \<times> ui_out list \<times> store" where
  "driver_page ui now db =
     (let driver_code = lower (strip (ui_driver_code ui));
          fcm_token = strip (ui_fcm_token ui)
      in if driver_code = [] then (Stopped, [], db)
         else
           let db1 = store_token driver_code fcm_token now db;
               ds = query_deliveries driver_code (deliveries db1)
           in if ds = [] then (Stopped, [Info ''No deliveries assigned.''], db1)
              else deliveries_loop ui now ds [] db1)"

section \<open>The dispatcher (dispatcher.py)\<close>

subsection \<open>Push notifications\<close>

text \<open>
  The request posted to the notification service, and what \<open>requests.post\<close> does with
  it: it returns a response with a text, or raises an exception with a message. The
  service is a parameter \<open>post\<close> of the model.
\<close>

record push_request =
  push_to :: fsval
  push_title :: string
  push_body :: string
  push_data :: "(string \<times> string) list"

datatype http_result = Response string | Failure string

text \<open>The body of the thread: the line it prints. The \<open>except Exception\<close> clause turns
  every failure of the post into a printed line.\<close>

definition worker :: "(push_request \<Rightarrow> http_result) \<Rightarrow> push_request \<Rightarrow> string" where
  "worker post req =
     (case post req of
        Response t \<Rightarrow> ''Push response: '' @ t
      | Failure e \<Rightarrow> ''Push error: '' @ e)"

text \<open>\<open>send_push_notification_async\<close> starts the thread and returns nothing to its
  caller; the model returns the lines the threads it started print.\<close>

definition send_push_notification_async ::
  "(push_request \<Rightarrow> http_result) \<Rightarrow> fsval \<Rightarrow> string \<Rightarrow> string \<Rightarrow> (string \<times> string) list \<Rightarrow> string list" where
  "send_push_notification_async post token title body data =
     [worker post \<lparr>push_to = token, push_title = title, push_body = body, push_data = data\<rparr>]"

text \<open>Python's truth value of a stored value.\<close>

fun truthy :: "fsval \<Rightarrow> bool" where
  "truthy (Str s) = (s \<noteq> [])"
| "truthy (Dict m) = (m \<noteq> Map.empty)"

subsection \<open>Manage Drivers\<close>

record driver_form =
  form_name :: string
  form_code :: string
  form_phone :: string
  form_fcm_token :: string
  form_save :: bool

text \<open>The list of current drivers (lines 77 to 81): \<open>d['name']\<close> and \<open>d['code']\<close> raise
  KeyError on a record without them.\<close>

fun list_drivers :: "collection \<Rightarrow> ui_out list \<Rightarrow> run_end \<times> ui_out list" where
  "list_drivers [] out = (Completed, out)"
| "list_drivers ((doc_id, d) # rest) out =
     (case (d ''name'', d ''code'') of
        (Some n, Some c) \<Rightarrow>
          list_drivers rest
            (out @ [Driver_line n c (case d ''phone'' of None \<Rightarrow> Str [] | Some p \<Rightarrow> p)])
      | _ \<Rightarrow> (Raised ''KeyError'', out))"

definition manage_drivers :: "driver_form \<Rightarrow> store \<Rightarrow> run_end \<times> ui_out list \<times> store" where
  "manage_drivers form db =
     (let name = strip (form_name form);
          code = lower (strip (form_code form));
          phone = strip (form_phone form);
          fcm_token = strip (form_fcm_token form)
      in if form_save form then
           if name = [] \<or> code = [] then
             (Completed, [Warning ''Driver Name and Code are required.''], db)
           else
             let db1 = db\<lparr>drivers := set_doc code
                            [''name'' \<mapsto> Str name, ''code'' \<mapsto> Str code,
                             ''phone'' \<mapsto> Str phone, ''fcm_token'' \<mapsto> Str fcm_token]
                            (drivers db)\<rparr>;
                 (e, out) = list_drivers (drivers db1) [Success ''Driver saved successfully!'']
             in (e, out, db1)
         else
           let (e, out) = list_drivers (drivers db) [] in (e, out, db))"

subsection \<open>Assign Delivery\<close>

record assign_ui =
  in_client_name :: string
  in_delivery_location :: string
  in_invoice_number :: string
  in_driver_choice :: string
  in_assign :: bool

text \<open>The record of lines 107 to 114.\<close>

definition delivery_data :: "string \<Rightarrow> string \<Rightarrow> string \<Rightarrow> string \<Rightarrow> string \<Rightarrow> doc" where
  "delivery_data client_name delivery_location invoice_number driver_choice now =
     [''client'' \<mapsto> Str client_name,
      ''location'' \<mapsto> Str delivery_location,
      ''invoice'' \<mapsto> Str invoice_number,
      ''driver_code'' \<mapsto> Str driver_choice,
      ''status'' \<mapsto> Str ''Assigned'',
      ''time'' \<mapsto> Str now]"

text \<open>The query of line 102 and its test on line 103.\<close>

definition invoice_exists :: "string \<Rightarrow> collection \<Rightarrow> bool" where
  "invoice_exists invoice_number c =
     list_ex (\<lambda>(doc_id, d). d ''invoice'' = Some (Str invoice_number)) c"

definition duplicate_invoice :: "string \<Rightarrow> ui_out" where
  "duplicate_invoice invoice_number =
     Error_msg (''Invoice number '' @ [CHR 39] @ invoice_number @ [CHR 39]
                @ '' already exists! Please use a unique one.'')"

text \<open>Lines 117 to 124: the notification to the chosen driver \<open>drv\<close>, sent when the
  driver has a token on file. The result is the list of lines printed by the threads
  started.\<close>

definition notify_driver ::
  "(push_request \<Rightarrow> http_result) \<Rightarrow> string \<Rightarrow> string \<Rightarrow> string \<Rightarrow> doc \<Rightarrow> string list" where
  "notify_driver post client_name delivery_location invoice_number drv =
     (case drv ''fcm_token'' of
        None \<Rightarrow> []
      | Some token \<Rightarrow>
          if truthy token then
            send_push_notification_async post token ''New Delivery Assigned''
              (client_name @ '' - '' @ delivery_location)
              [(''invoice'', invoice_number)]
          else [])"

text \<open>
  One run of the page up to line 126, with the button's value among the inputs. The
  result holds, besides the end of the run, the messages and the store, the lines
  printed by the notification threads the run started. \<open>new_id\<close> is the identifier that
  \<open>add\<close> generates; \<open>add\<close> creates the document and raises AlreadyExists when the
  identifier is taken. The audit view below line 128 reads the store only and is not
  part of this function.
\<close>

definition assign_delivery ::
  "(push_request \<Rightarrow> http_result) \<Rightarrow> assign_ui \<Rightarrow> string \<Rightarrow> string \<Rightarrow> store
     \<Rightarrow> run_end \<times> ui_out list \<times> string list \<times> store" where
  "assign_delivery post ui now new_id db =
     (if drivers db = [] then
        (Completed, [Warning ''No drivers available. Please add drivers first.''], [], db)
      else
        let client_name = in_client_name ui;
            delivery_location = in_delivery_location ui;
            invoice_number = strip (in_invoice_number ui);
            driver_choice = in_driver_choice ui
        in if \<not> in_assign ui then (Completed, [], [], db)
           else if client_name = [] \<or> delivery_location = [] \<or> invoice_number = [] then
             (Completed, [Warning ''Please fill all delivery details.''], [], db)
           else if invoice_exists invoice_number (deliveries db) then
             (Completed, [duplicate_invoice invoice_number], [], db)
           else if new_id \<in> set (map fst (deliveries db)) then
             (Raised ''AlreadyExists'', [], [], db)
           else
             let db1 = db\<lparr>deliveries := deliveries db @
                            [(new_id, delivery_data client_name delivery_location
                                        invoice_number driver_choice now)]\<rparr>
             in case map_of (drivers db) driver_choice of
                  None \<Rightarrow> (Raised ''KeyError'', [], [], db1)
                | Some drv \<Rightarrow>
                    (Completed, [Success ''Delivery assigned!''],
                     notify_driver post client_name delivery_location invoice_number drv,
                     db1))"

text \<open>The row test of the audit view's search (lines 180 to 184): the pattern is
  searched in the lower-cased client and invoice; a missing or non-string value
  does not match. \<open>contains\<close> is the pattern search of \<open>str.contains\<close>, a parameter.\<close>

definition search_match :: "(string \<Rightarrow> string \<Rightarrow> bool) \<Rightarrow> string \<Rightarrow> doc \<Rightarrow> bool" where
  "search_match contains search_text d =
     ((case d ''client'' of Some (Str s) \<Rightarrow> contains search_text (lower s) | _ \<Rightarrow> False)
      \<or> (case d ''invoice'' of Some (Str s) \<Rightarrow> contains search_text (lower s) | _ \<Rightarrow> False))"

section \<open>The transition operation\<close>

text \<open>
  The driver's four actions. \<open>transition\<close> is the run of the dashboard in which the
  driver \<open>driver_code\<close> presses, for the delivery \<open>doc_id\<close>, the button of the action
  (for a rejection: Reject and Submit, with the reason in the text area), and nothing
  else; no token is entered. The widget values of a run are inputs of the model, which
  places no constraint on the combinations the framework delivers.
\<close>

datatype action = Accept | Reject string | MarkInTransit | MarkDelivered

fun pressed :: "string \<Rightarrow> action \<Rightarrow> string list" where
  "pressed doc_id Accept = [''a'' @ doc_id]"
| "pressed doc_id (Reject reason) = [''r'' @ doc_id, ''submit_'' @ doc_id]"
| "pressed doc_id MarkInTransit = [''t'' @ doc_id]"
| "pressed doc_id MarkDelivered = [''d'' @ doc_id]"

fun reason_of :: "action \<Rightarrow> string" where
  "reason_of (Reject reason) = reason"
| "reason_of _ = []"

definition action_ui :: "string \<Rightarrow> string \<Rightarrow> action \<Rightarrow> driver_ui" where
  "action_ui driver_code doc_id a =
     \<lparr>ui_driver_code = driver_code, ui_fcm_token = [],
      ui_button = (\<lambda>k. k \<in> set (pressed doc_id a)),
      ui_text_area = (\<lambda>k. if k = ''reason_'' @ doc_id then reason_of a else [])\<rparr>"

definition transition ::
  "string \<Rightarrow> string \<Rightarrow> action \<Rightarrow> string \<Rightarrow> store \<Rightarrow> run_end \<times> ui_out list \<times> store" where
  "transition driver_code doc_id a now db = driver_page (action_ui driver_code doc_id a) now db"

text \<open>The transition table of the specification, on the status values the dashboard
  uses, and the status an action leads to.\<close>

fun table_allows :: "fsval option \<Rightarrow> action \<Rightarrow> bool" where
  "table_allows st Accept = (st = Some (Str ''pending''))"
| "table_allows st (Reject reason) = (st = Some (Str ''pending''))"
| "table_allows st MarkInTransit = (st = Some (Str ''accepted''))"
| "table_allows st MarkDelivered = (st = Some (Str ''in_transit''))"

fun new_status :: "action \<Rightarrow> string" where
  "new_status Accept = ''accepted''"
| "new_status (Reject reason) = ''rejected''"
| "new_status MarkInTransit = ''in_transit''"
| "new_status MarkDelivered = ''delivered''"

text \<open>A rejection needs a reason that is not blank (line 75).\<close>

definition reason_ok :: "action \<Rightarrow> bool" where
  "reason_ok a = (case a of Reject reason \<Rightarrow> strip reason \<noteq> [] | _ \<Rightarrow> True)"

text \<open>The update and the message of each action's branch.\<close>

fun action_fields :: "action \<Rightarrow> string \<Rightarrow> doc \<Rightarrow> doc" where
  "action_fields Accept now = accept_fields now"
| "action_fields (Reject reason) now = reject_fields reason now"
| "action_fields MarkInTransit now = transit_fields now"
| "action_fields MarkDelivered now = delivered_fields now"

fun action_message :: "action \<Rightarrow> ui_out" where
  "action_message Accept = Success ''Accepted. Refreshing...''"
| "action_message (Reject reason) = Warning ''Rejected. Refreshing...''"
| "action_message MarkInTransit = Info ''Marked in transit.''"
| "action_message MarkDelivered = Success ''Marked delivered.''"

definition displays :: "collection \<Rightarrow> ui_out list" where
  "displays c = concat (map (\<lambda>(doc_id, d). display d) c)"

text \<open>Reading a field, or a timestamp, of a stored delivery.\<close>

definition delivery_field :: "store \<Rightarrow> string \<Rightarrow> string \<Rightarrow> fsval option" where
  "delivery_field db doc_id k =
     (case map_of (deliveries db) doc_id of None \<Rightarrow> None | Some d \<Rightarrow> d k)"

definition delivery_stamp :: "store \<Rightarrow> string \<Rightarrow> string \<Rightarrow> fsval option" where
  "delivery_stamp db doc_id k =
     (case map_of (deliveries db) doc_id of None \<Rightarrow> None | Some d \<Rightarrow> nested d ''timestamps'' k)"

section \<open>Requests, stored records and histories\<close>

text \<open>A request that passes the checks of lines 96 to 99, and the record a run with
  these inputs inserts.\<close>

definition valid_request :: "assign_ui \<Rightarrow> bool" where
  "valid_request ui = (in_assign ui \<and> in_client_name ui \<noteq> [] \<and> in_delivery_location ui \<noteq> []
      \<and> strip (in_invoice_number ui) \<noteq> [])"

definition new_delivery :: "assign_ui \<Rightarrow> string \<Rightarrow> doc" where
  "new_delivery ui now =
     delivery_data (in_client_name ui) (in_delivery_location ui) (strip (in_invoice_number ui))
       (in_driver_choice ui) now"

text \<open>
  A history of the system is a list of page runs, each with its inputs; \<open>run_events\<close>
  gives the store after a history.
\<close>

datatype event =
    Driver_run driver_ui string
  | Assign_run assign_ui string string
  | Manage_run driver_form

fun apply_event :: "(push_request \<Rightarrow> http_result) \<Rightarrow> event \<Rightarrow> store \<Rightarrow> store" where
  "apply_event post (Driver_run ui now) db = snd (snd (driver_page ui now db))"
| "apply_event post (Assign_run ui now new_id) db = snd (snd (snd (assign_delivery post ui now new_id db)))"
| "apply_event post (Manage_run form) db = snd (snd (manage_drivers form db))"

fun run_events :: "(push_request \<Rightarrow> http_result) \<Rightarrow> event list \<Rightarrow> store \<Rightarrow> store" where
  "run_events post [] db = db"
| "run_events post (ev # evs) db = run_events post evs (apply_event post ev db)"

text \<open>A record that the query of the dashboard selects for no driver.\<close>

definition unlisted :: "doc \<Rightarrow> bool" where
  "unlisted d = (d ''status'' \<noteq> Some (Str ''pending'') \<and> d ''status'' \<noteq> Some (Str ''accepted'')
     \<and> d ''status'' \<noteq> Some (Str ''in_transit''))"


section \<open>Example stores\<close>

definition example_store :: store where
  "example_store =
     \<lparr>drivers = [],
      deliveries =
        [(''x1'', [''driver_code'' \<mapsto> Str ''d1'', ''status'' \<mapsto> Str ''pending'',
                   ''invoice'' \<mapsto> Str ''INV-1'']),
         (''x2'', [''driver_code'' \<mapsto> Str ''d1'', ''status'' \<mapsto> Str ''accepted'']),
         (''x3'', [''driver_code'' \<mapsto> Str ''d1'', ''status'' \<mapsto> Str ''delivered''])]\<rparr>"

definition dispatch_store :: store where
  "dispatch_store =
     \<lparr>drivers = [(''d1'', [''name'' \<mapsto> Str ''Al'', ''code'' \<mapsto> Str ''d1'',
                            ''phone'' \<mapsto> Str [], ''fcm_token'' \<mapsto> Str ''tok1''])],
      deliveries = []\<rparr>"

definition example_request :: assign_ui where
  "example_request =
     \<lparr>in_client_name = ''Acme'', in_delivery_location = ''5th Ave'',
      in_invoice_number = ''INV-9'', in_driver_choice = ''d1'', in_assign = True\<rparr>"

definition failing_post :: "push_request \<Rightarrow> http_result" where
  "failing_post req = Failure ''timeout''"



section \<open>Properties of the driver dashboard\<close>

subsection \<open>The loop under a single action\<close>

lemma button_other:
  "i \<noteq> doc_id \<Longrightarrow> \<not> ui_button (action_ui code doc_id a) (CHR ''a'' # i)"
  "i \<noteq> doc_id \<Longrightarrow> \<not> ui_button (action_ui code doc_id a) (CHR ''r'' # i)"
  "i \<noteq> doc_id \<Longrightarrow> \<not> ui_button (action_ui code doc_id a) (CHR ''t'' # i)"
  "i \<noteq> doc_id \<Longrightarrow> \<not> ui_button (action_ui code doc_id a) (CHR ''d'' # i)"
  by (cases a; simp add: action_ui_def)+

lemma loop_skip:
  "\<forall>p \<in> set pre. fst p \<noteq> doc_id \<and> snd p ''status'' \<noteq> None \<Longrightarrow>
   deliveries_loop (action_ui code doc_id a) now (pre @ rest) out db =
   deliveries_loop (action_ui code doc_id a) now rest (out @ displays pre) db"
proof (induction pre arbitrary: out)
  case Nil
  then show ?case by (simp add: displays_def)
next
  case (Cons p pre)
  obtain i d where p: "p = (i, d)" by (cases p)
  from Cons.prems p have i: "i \<noteq> doc_id" and st: "d ''status'' \<noteq> None" 
    and rest: "\<forall>p \<in> set pre. fst p \<noteq> doc_id \<and> snd p ''status'' \<noteq> None" by auto
  from st obtain s where s: "d ''status'' = Some s" by auto
  show ?case using Cons.IH[OF rest] 
    by (simp add: p s button_other[OF i] displays_def Let_def)
qed

lemma loop_hit_yes:
  "table_allows (data ''status'') a \<Longrightarrow> reason_ok a \<Longrightarrow>
   deliveries_loop (action_ui code doc_id a) now ((doc_id, data) # rest) out db =
   write_and_rerun doc_id (action_fields a now) (action_message a) (out @ display data) db"
  by (cases a; cases "data ''status''"; simp add: action_ui_def Let_def reason_ok_def)

lemma loop_hit_no:
  "\<not> (table_allows (data ''status'') a \<and> reason_ok a) \<Longrightarrow> data ''status'' \<noteq> None \<Longrightarrow>
   deliveries_loop (action_ui code doc_id a) now ((doc_id, data) # rest) out db =
   deliveries_loop (action_ui code doc_id a) now rest (out @ display data) db"
  by (cases a; cases "data ''status''"; simp add: action_ui_def Let_def reason_ok_def)

lemma displays_no_error: "\<not> list_ex is_error (out @ displays c) \<longleftrightarrow> \<not> list_ex is_error out"
  by (induction c) (auto simp: displays_def display_def)

lemma display_no_error: "\<not> list_ex is_error (display d)"
  by (simp add: display_def)

lemma update_doc_Some: "k \<in> set (map fst c) \<Longrightarrow> \<exists>c'. update_doc k f c = Some c'"
proof (induction c)
  case Nil
  then show ?case by simp
next
  case (Cons p c)
  obtain i d where p: "p = (i, d)" by (cases p)
  show ?case
  proof (cases "i = k")
    case True
    then show ?thesis by (simp add: p)
  next
    case False
    with Cons.prems p have "k \<in> set (map fst c)" by simp
    from Cons.IH[OF this] obtain c' where "update_doc k f c = Some c'" by blast
    then show ?thesis using False by (simp add: p)
  qed
qed

lemma update_doc_map_of:
  "update_doc k f c = Some c' \<Longrightarrow> map_of c k = Some d \<Longrightarrow>
   map_of c' x = (if x = k then Some (f d) else map_of c x)"
  by (induction c arbitrary: c') (auto split: if_splits option.splits)

lemma update_doc_ids: "update_doc k f c = Some c' \<Longrightarrow> map fst c' = map fst c"
  by (induction c arbitrary: c') (auto split: if_splits option.splits)

lemma table_listed:
  "table_allows (d ''status'') a \<Longrightarrow> d ''driver_code'' = Some (Str dc) \<Longrightarrow> listed dc d"
  by (cases a) (auto simp: listed_def)

lemma listed_status: "listed dc d \<Longrightarrow> d ''status'' \<noteq> None"
  by (auto simp: listed_def)

lemma query_split:
  assumes dist: "distinct (map fst c)" and mem: "(doc_id, data) \<in> set c" and l: "listed dc data"
  shows "\<exists>pre post. query_deliveries dc c = pre @ (doc_id, data) # post
           \<and> (\<forall>p \<in> set pre. fst p \<noteq> doc_id \<and> snd p ''status'' \<noteq> None)
           \<and> (\<forall>p \<in> set post. fst p \<noteq> doc_id \<and> snd p ''status'' \<noteq> None)"
proof -
  let ?q = "query_deliveries dc c"
  have dq: "distinct (map fst ?q)"
    using dist by (simp add: query_deliveries_def distinct_map_filter)
  have "(doc_id, data) \<in> set ?q" using mem l by (simp add: query_deliveries_def)
  then obtain pre post where q: "?q = pre @ (doc_id, data) # post"
    by (auto dest: split_list)
  have lq: "\<forall>p \<in> set ?q. snd p ''status'' \<noteq> None"
    by (auto simp: query_deliveries_def dest!: listed_status)
  from dq q have a: "doc_id \<notin> fst ` set pre" and b: "doc_id \<notin> fst ` set post" by auto
  have "\<forall>p \<in> set pre. fst p \<noteq> doc_id \<and> snd p ''status'' \<noteq> None"
    using a lq unfolding q by auto
  moreover have "\<forall>p \<in> set post. fst p \<noteq> doc_id \<and> snd p ''status'' \<noteq> None"
    using b lq unfolding q by auto
  ultimately show ?thesis using q by blast
qed

lemma query_miss:
  assumes dist: "distinct (map fst c)" and mem: "(doc_id, data) \<in> set c" and l: "\<not> listed dc data"
  shows "\<forall>p \<in> set (query_deliveries dc c). fst p \<noteq> doc_id \<and> snd p ''status'' \<noteq> None"
proof -
  have "\<And>d. (doc_id, d) \<in> set c \<Longrightarrow> d = data"
    using dist mem by (meson eq_key_imp_eq_value)
  then show ?thesis using l by (auto simp: query_deliveries_def dest: listed_status)
qed

lemma driver_page_action:
  "lower (strip code) \<noteq> [] \<Longrightarrow>
   transition code doc_id a now db =
     (if query_deliveries (lower (strip code)) (deliveries db) = []
      then (Stopped, [Info ''No deliveries assigned.''], db)
      else deliveries_loop (action_ui code doc_id a) now
             (query_deliveries (lower (strip code)) (deliveries db)) [] db)"
  by (simp add: transition_def driver_page_def action_ui_def Let_def strip_def store_token_def)

lemma transition_fires:
  assumes dist: "distinct (map fst (deliveries db))"
    and mem: "map_of (deliveries db) doc_id = Some data"
    and code: "lower (strip code) \<noteq> []"
    and drv: "data ''driver_code'' = Some (Str (lower (strip code)))"
    and tab: "table_allows (data ''status'') a" and r: "reason_ok a"
  shows "\<exists>out c'. transition code doc_id a now db = (Rerun, out, db\<lparr>deliveries := c'\<rparr>)
           \<and> update_doc doc_id (action_fields a now) (deliveries db) = Some c'
           \<and> \<not> list_ex is_error out"
proof -
  let ?dc = "lower (strip code)"
  from mem have m: "(doc_id, data) \<in> set (deliveries db)" by (rule map_of_SomeD)
  from query_split[OF dist m table_listed[OF tab drv]]
  obtain pre post where q: "query_deliveries ?dc (deliveries db) = pre @ (doc_id, data) # post"
    and pre: "\<forall>p \<in> set pre. fst p \<noteq> doc_id \<and> snd p ''status'' \<noteq> None" by blast
  from m have "doc_id \<in> set (map fst (deliveries db))" by force
  from update_doc_Some[OF this] obtain c'
    where c': "update_doc doc_id (action_fields a now) (deliveries db) = Some c'" by blast
  have st: "data ''status'' \<noteq> None" using tab by (cases a) auto
  have r': "\<forall>r. a = Reject r \<longrightarrow> strip r \<noteq> []" using r by (auto simp: reason_ok_def)
  have "transition code doc_id a now db =
        (Rerun, (displays pre @ display data) @ [action_message a], db\<lparr>deliveries := c'\<rparr>)"
    using c'
    by (simp add: driver_page_action[OF code] q loop_skip[OF pre] loop_hit_yes[of data a, OF tab r]
          write_and_rerun_def del: deliveries_loop.simps(2))
  moreover have "\<not> list_ex is_error ((displays pre @ display data) @ [action_message a])"
    using displays_no_error[of "[]" pre] display_no_error[of data] by (cases a) auto
  ultimately show ?thesis using c' by blast
qed

lemma transition_idle:
  assumes dist: "distinct (map fst (deliveries db))"
    and mem: "map_of (deliveries db) doc_id = Some data"
    and code: "lower (strip code) \<noteq> []"
    and no: "\<not> (data ''driver_code'' = Some (Str (lower (strip code)))
              \<and> table_allows (data ''status'') a \<and> reason_ok a)"
  shows "\<exists>e out. transition code doc_id a now db = (e, out, db)
           \<and> (e = Completed \<or> e = Stopped) \<and> \<not> list_ex is_error out"
proof -
  let ?dc = "lower (strip code)"
  let ?q = "query_deliveries ?dc (deliveries db)"
  from mem have m: "(doc_id, data) \<in> set (deliveries db)" by (rule map_of_SomeD)
  show ?thesis
  proof (cases "listed ?dc data")
    case True
    from query_split[OF dist m True]
    obtain pre post where q: "?q = pre @ (doc_id, data) # post"
      and pre: "\<forall>p \<in> set pre. fst p \<noteq> doc_id \<and> snd p ''status'' \<noteq> None"
      and post: "\<forall>p \<in> set post. fst p \<noteq> doc_id \<and> snd p ''status'' \<noteq> None" by blast
    have st: "data ''status'' \<noteq> None" using True by (rule listed_status)
    have no: "\<not> (table_allows (data ''status'') a \<and> reason_ok a)"
      using no True by (simp add: listed_def)
    have "transition code doc_id a now db =
          (Completed, (displays pre @ display data) @ displays post, db)"
      using loop_skip[OF post, of code a now "[]"]
      by (simp add: driver_page_action[OF code] q loop_skip[OF pre] loop_hit_no[of data a, OF no st]
          del: deliveries_loop.simps(2))
    moreover have "\<not> list_ex is_error ((displays pre @ display data) @ displays post)"
      using displays_no_error[of "[]" pre] display_no_error[of data] displays_no_error[of "[]" post]
      by auto
    ultimately show ?thesis by blast
  next
    case False
    note miss = query_miss[OF dist m False]
    show ?thesis
    proof (cases "?q = []")
      case True
      then show ?thesis by (simp add: driver_page_action[OF code])
    next
      case False
      have "transition code doc_id a now db = (Completed, displays ?q, db)"
        using False loop_skip[OF miss, of code a now "[]"]
        by (simp add: driver_page_action[OF code])
      then show ?thesis using displays_no_error[of "[]" ?q] by auto
    qed
  qed
qed


subsection \<open>What the updates write\<close>

lemma action_fields_status: "action_fields a now d ''status'' = Some (Str (new_status a))"
  by (cases a)
     (simp_all add: accept_fields_def reject_fields_def transit_fields_def delivered_fields_def
        set_nested_def)

lemma action_fields_stamp:
  "nested (action_fields a now d) ''timestamps'' (new_status a) = Some (Str now)"
  by (cases a)
     (simp_all add: accept_fields_def reject_fields_def transit_fields_def delivered_fields_def
        set_nested_def nested_def)

lemma action_fields_other_stamps:
  "k \<noteq> new_status a \<Longrightarrow>
   nested (action_fields a now d) ''timestamps'' k = nested d ''timestamps'' k"
  by (cases a)
     (auto simp: accept_fields_def reject_fields_def transit_fields_def delivered_fields_def
        set_nested_def nested_def split: option.splits fsval.splits)

lemma action_fields_frame:
  "k \<noteq> ''status'' \<Longrightarrow> k \<noteq> ''timestamps'' \<Longrightarrow> k \<noteq> ''rejection_reason'' \<Longrightarrow>
   action_fields a now d k = d k"
  by (cases a)
     (simp_all add: accept_fields_def reject_fields_def transit_fields_def delivered_fields_def
        set_nested_def)

lemma action_fields_reason:
  "action_fields a now d ''rejection_reason'' =
     (case a of Reject reason \<Rightarrow> Some (Str (strip reason)) | _ \<Rightarrow> d ''rejection_reason'')"
  by (cases a)
     (simp_all add: accept_fields_def reject_fields_def transit_fields_def delivered_fields_def
        set_nested_def)


lemma transition_no_code:
  "lower (strip code) = [] \<Longrightarrow> transition code doc_id a now db = (Stopped, [], db)"
  by (simp add: transition_def driver_page_def action_ui_def Let_def)

lemma transition_rerun:
  assumes dist: "distinct (map fst (deliveries db))"
    and mem: "map_of (deliveries db) doc_id = Some data"
    and run: "fst (transition code doc_id a now db) = Rerun"
  shows "\<exists>out c'. transition code doc_id a now db = (Rerun, out, db\<lparr>deliveries := c'\<rparr>)
           \<and> update_doc doc_id (action_fields a now) (deliveries db) = Some c'
           \<and> table_allows (data ''status'') a \<and> reason_ok a"
proof -
  have code: "lower (strip code) \<noteq> []"
    using run transition_no_code[of code doc_id a now db] by auto
  have f: "data ''driver_code'' = Some (Str (lower (strip code)))
           \<and> table_allows (data ''status'') a \<and> reason_ok a"
  proof (rule ccontr)
    assume "\<not> ?thesis"
    from transition_idle[OF dist mem code this, of now] run show False by auto
  qed
  then have drv: "data ''driver_code'' = Some (Str (lower (strip code)))"
    and tab: "table_allows (data ''status'') a" and r: "reason_ok a" by simp_all
  from transition_fires[OF dist mem code drv tab r, of now] tab r show ?thesis by blast
qed

subsection \<open>Evaluation of the examples\<close>

lemma code_d1: "lower (strip ''d1'') = ''d1''"
  by code_simp


lemma example_distinct: "distinct (map fst (deliveries example_store))"
  by (simp add: example_store_def)

lemmas run_defs = transition_def driver_page_def store_token_def action_ui_def example_store_def
  code_d1
  query_deliveries_def listed_def Let_def display_def write_and_rerun_def delivery_field_def
  delivery_stamp_def

subsection \<open>The transition table\<close>







subsection \<open>Rejection reasons\<close>







subsection \<open>What a transition leaves alone\<close>

text \<open>
  Claim C8. A transition that writes sets the status, stamps the timestamp entry of the
  new status with the current time, and for a rejection stores the reason; the other
  timestamp entries, every other field of the delivery (invoice, client, location and
  driver among them), the rejection reason for the other actions, every other delivery
  and the drivers are unchanged.
\<close>

theorem transition_frame:
  assumes dist: "distinct (map fst (deliveries db))"
    and mem: "map_of (deliveries db) doc_id = Some data"
    and run: "fst (transition code doc_id a now db) = Rerun"
  shows "delivery_field (snd (snd (transition code doc_id a now db))) doc_id ''status''
           = Some (Str (new_status a))
       \<and> delivery_stamp (snd (snd (transition code doc_id a now db))) doc_id (new_status a)
           = Some (Str now)
       \<and> (\<forall>k. k \<noteq> new_status a \<longrightarrow>
             delivery_stamp (snd (snd (transition code doc_id a now db))) doc_id k
               = delivery_stamp db doc_id k)
       \<and> delivery_field (snd (snd (transition code doc_id a now db))) doc_id ''rejection_reason''
           = (case a of Reject reason \<Rightarrow> Some (Str (strip reason))
              | _ \<Rightarrow> delivery_field db doc_id ''rejection_reason'')
       \<and> (\<forall>k. k \<noteq> ''status'' \<and> k \<noteq> ''timestamps'' \<and> k \<noteq> ''rejection_reason'' \<longrightarrow>
             delivery_field (snd (snd (transition code doc_id a now db))) doc_id k
               = delivery_field db doc_id k)
       \<and> (\<forall>i. i \<noteq> doc_id \<longrightarrow>
             map_of (deliveries (snd (snd (transition code doc_id a now db)))) i
               = map_of (deliveries db) i)
       \<and> map fst (deliveries (snd (snd (transition code doc_id a now db))))
           = map fst (deliveries db)
       \<and> drivers (snd (snd (transition code doc_id a now db))) = drivers db"
proof -
  from transition_rerun[OF dist mem run]
  obtain out c' where t: "transition code doc_id a now db = (Rerun, out, db\<lparr>deliveries := c'\<rparr>)"
    and u: "update_doc doc_id (action_fields a now) (deliveries db) = Some c'" by blast
  note m = update_doc_map_of[OF u mem]
  have d': "map_of c' doc_id = Some (action_fields a now data)" using m[of doc_id] by simp
  have 1: "delivery_field (db\<lparr>deliveries := c'\<rparr>) doc_id ''status'' = Some (Str (new_status a))"
    by (simp add: delivery_field_def d' action_fields_status)
  have 2: "delivery_stamp (db\<lparr>deliveries := c'\<rparr>) doc_id (new_status a) = Some (Str now)"
    by (simp add: delivery_stamp_def d' action_fields_stamp)
  have 3: "\<forall>k. k \<noteq> new_status a \<longrightarrow>
             delivery_stamp (db\<lparr>deliveries := c'\<rparr>) doc_id k = delivery_stamp db doc_id k"
    by (simp add: delivery_stamp_def d' mem action_fields_other_stamps)
  have 4: "delivery_field (db\<lparr>deliveries := c'\<rparr>) doc_id ''rejection_reason''
           = (case a of Reject reason \<Rightarrow> Some (Str (strip reason))
              | _ \<Rightarrow> delivery_field db doc_id ''rejection_reason'')"
    by (simp add: delivery_field_def d' mem action_fields_reason split: action.splits)
  have 5: "\<forall>k. k \<noteq> ''status'' \<and> k \<noteq> ''timestamps'' \<and> k \<noteq> ''rejection_reason'' \<longrightarrow>
             delivery_field (db\<lparr>deliveries := c'\<rparr>) doc_id k = delivery_field db doc_id k"
    by (simp add: delivery_field_def d' mem action_fields_frame)
  have 6: "\<forall>i. i \<noteq> doc_id \<longrightarrow> map_of (deliveries (db\<lparr>deliveries := c'\<rparr>)) i = map_of (deliveries db) i"
    using m by simp
  have 7: "map fst (deliveries (db\<lparr>deliveries := c'\<rparr>)) = map fst (deliveries db)"
    using update_doc_ids[OF u] by simp
  show ?thesis unfolding t using 1 2 3 4 5 6 7 by simp
qed


theorem transition_frame_witness:
  "delivery_field (snd (snd (transition ''d1'' ''x1'' Accept ''t0'' example_store)))
     ''x1'' ''invoice'' = Some (Str ''INV-1'')
   \<and> delivery_stamp (snd (snd (transition ''d1'' ''x1'' Accept ''t0'' example_store)))
        ''x1'' ''accepted'' = Some (Str ''t0'')"
proof -
  have m: "map_of (deliveries example_store) ''x1''
           = Some [''driver_code'' \<mapsto> Str ''d1'', ''status'' \<mapsto> Str ''pending'',
                   ''invoice'' \<mapsto> Str ''INV-1'']"
    by (simp add: example_store_def)
  have r: "fst (transition ''d1'' ''x1'' Accept ''t0'' example_store) = Rerun"
    by (simp add: run_defs)
  have i: "delivery_field example_store ''x1'' ''invoice'' = Some (Str ''INV-1'')"
    by (simp add: delivery_field_def example_store_def)
  from transition_frame[OF example_distinct m r] i
  show ?thesis by simp
qed

section \<open>Properties of the dispatcher\<close>

subsection \<open>The outcomes of Assign Delivery\<close>

lemma assign_duplicate:
  assumes "drivers db \<noteq> []" and "valid_request ui"
    and "invoice_exists (strip (in_invoice_number ui)) (deliveries db)"
  shows "assign_delivery post ui now new_id db
         = (Completed, [duplicate_invoice (strip (in_invoice_number ui))], [], db)"
  using assms by (simp add: assign_delivery_def valid_request_def Let_def)

lemma assign_success:
  assumes "valid_request ui"
    and "\<not> invoice_exists (strip (in_invoice_number ui)) (deliveries db)"
    and "new_id \<notin> set (map fst (deliveries db))"
    and "map_of (drivers db) (in_driver_choice ui) = Some drv"
  shows "assign_delivery post ui now new_id db
         = (Completed, [Success ''Delivery assigned!''], notify_driver post (in_client_name ui) (in_delivery_location ui) (strip (in_invoice_number ui)) drv,
            db\<lparr>deliveries := deliveries db @ [(new_id, new_delivery ui now)]\<rparr>)"
proof -
  from assms(4) have "drivers db \<noteq> []" by auto
  then show ?thesis using assms
    by (simp add: assign_delivery_def valid_request_def Let_def new_delivery_def)
qed

lemma assign_success_conv:
  assumes "assign_delivery post ui now new_id db = (Completed, [Success ''Delivery assigned!''], logs, db1)"
  shows "valid_request ui \<and> \<not> invoice_exists (strip (in_invoice_number ui)) (deliveries db)
       \<and> new_id \<notin> set (map fst (deliveries db))
       \<and> db1 = db\<lparr>deliveries := deliveries db @ [(new_id, new_delivery ui now)]\<rparr>"
  using assms
  by (auto simp: assign_delivery_def valid_request_def Let_def new_delivery_def duplicate_invoice_def
      split: if_splits option.splits)

lemma map_of_append_fresh:
  "k \<notin> set (map fst c) \<Longrightarrow> map_of (c @ [(k, v)]) = (map_of c)(k \<mapsto> v)"
  by (induction c) (auto simp: fun_upd_twist)

lemma assign_independent:
  "fst (assign_delivery post' ui now new_id db) = fst (assign_delivery post ui now new_id db)
   \<and> fst (snd (assign_delivery post' ui now new_id db))
       = fst (snd (assign_delivery post ui now new_id db))
   \<and> snd (snd (snd (assign_delivery post' ui now new_id db)))
       = snd (snd (snd (assign_delivery post ui now new_id db)))"
  by (simp add: assign_delivery_def Let_def split: option.splits)

subsection \<open>What the pages leave alone\<close>

lemma write_effect:
  "write_and_rerun k f m out db = (e, out', db') \<Longrightarrow>
   db' = db \<or> (\<exists>c'. update_doc k f (deliveries db) = Some c' \<and> db' = db\<lparr>deliveries := c'\<rparr>)"
  by (auto simp: write_and_rerun_def split: option.splits)

lemma loop_effect:
  "deliveries_loop ui now xs out db = (e, out', db') \<Longrightarrow>
   db' = db \<or> (\<exists>k d f c'. (k, d) \<in> set xs \<and> update_doc k f (deliveries db) = Some c'
                  \<and> db' = db\<lparr>deliveries := c'\<rparr>)"
proof (induction xs arbitrary: out)
  case Nil
  then show ?case by simp
next
  case (Cons p xs)
  obtain k d where p: "p = (k, d)" by (cases p)
  let ?o = "out @ display d"
  from Cons.prems
  consider (stop) "db' = db"
    | (upd) f m where "write_and_rerun k f m ?o db = (e, out', db')"
    | (rest) "deliveries_loop ui now xs ?o db = (e, out', db')"
    unfolding p by (auto simp: Let_def split: option.splits if_splits)
  then show ?case
  proof cases
    case stop
    then show ?thesis by simp
  next
    case upd
    from write_effect[OF this] show ?thesis unfolding p by auto
  next
    case rest
    from Cons.IH[OF this] show ?thesis by auto
  qed
qed

lemma store_token_deliveries: "deliveries (store_token dc tok now db) = deliveries db"
  by (simp add: store_token_def)

lemma driver_page_effect:
  assumes r: "driver_page ui now db = (e, out, db')"
  shows "deliveries db' = deliveries db
       \<or> (\<exists>k d f dc. (k, d) \<in> set (deliveries db) \<and> listed dc d
             \<and> update_doc k f (deliveries db) = Some (deliveries db'))"
proof -
  let ?dc = "lower (strip (ui_driver_code ui))"
  let ?db1 = "store_token ?dc (strip (ui_fcm_token ui)) now db"
  let ?q = "query_deliveries ?dc (deliveries ?db1)"
  note d1 = store_token_deliveries[of ?dc "strip (ui_fcm_token ui)" now db]
  show ?thesis
  proof (cases "?dc = []")
    case True
    then have "driver_page ui now db = (Stopped, [], db)" by (simp add: driver_page_def)
    with r show ?thesis by simp
  next
    case False
    show ?thesis
    proof (cases "?q = []")
      case True
      then have "driver_page ui now db = (Stopped, [Info ''No deliveries assigned.''], ?db1)"
        using False by (simp add: driver_page_def Let_def)
      with r d1 show ?thesis by auto
    next
      case nonempty: False
      then have "driver_page ui now db = deliveries_loop ui now ?q [] ?db1"
        using False by (simp add: driver_page_def Let_def)
      with r have l: "deliveries_loop ui now ?q [] ?db1 = (e, out, db')" by simp
      from loop_effect[OF l] show ?thesis
      proof
        assume "db' = ?db1"
        then show ?thesis using d1 by simp
      next
        assume "\<exists>k d f c'. (k, d) \<in> set ?q \<and> update_doc k f (deliveries ?db1) = Some c'
                  \<and> db' = ?db1\<lparr>deliveries := c'\<rparr>"
        then obtain k d f c' where kd: "(k, d) \<in> set ?q"
          and u: "update_doc k f (deliveries ?db1) = Some c'"
          and db': "db' = ?db1\<lparr>deliveries := c'\<rparr>" by blast
        from kd have "(k, d) \<in> set (deliveries db)" and "listed ?dc d"
          unfolding d1 by (simp_all add: query_deliveries_def)
        moreover from u db' have "update_doc k f (deliveries db) = Some (deliveries db')"
          unfolding d1 by simp
        ultimately show ?thesis by blast
      qed
    qed
  qed
qed

lemma driver_page_keeps:
  assumes dist: "distinct (map fst (deliveries db))"
    and mem: "map_of (deliveries db) i = Some d0" and un: "unlisted d0"
  shows "distinct (map fst (deliveries (snd (snd (driver_page ui now db)))))
       \<and> map_of (deliveries (snd (snd (driver_page ui now db)))) i = Some d0"
proof -
  obtain e out db' where r: "driver_page ui now db = (e, out, db')" by (cases "driver_page ui now db")
  from driver_page_effect[OF r] show ?thesis
  proof
    assume "deliveries db' = deliveries db"
    then show ?thesis using dist mem r by simp
  next
    assume "\<exists>k d f dc. (k, d) \<in> set (deliveries db) \<and> listed dc d
              \<and> update_doc k f (deliveries db) = Some (deliveries db')"
    then obtain k d f dc where kd: "(k, d) \<in> set (deliveries db)" and l: "listed dc d"
      and u: "update_doc k f (deliveries db) = Some (deliveries db')" by blast
    from kd dist have mk: "map_of (deliveries db) k = Some d" by simp
    have "k \<noteq> i"
    proof
      assume "k = i"
      with mk mem have "d = d0" by simp
      with l un show False by (auto simp: listed_def unlisted_def)
    qed
    then have "map_of (deliveries db') i = Some d0"
      using update_doc_map_of[OF u mk, of i] mem by simp
    moreover have "distinct (map fst (deliveries db'))"
      using update_doc_ids[OF u] dist by simp
    ultimately show ?thesis using r by simp
  qed
qed

lemma assign_keeps:
  assumes dist: "distinct (map fst (deliveries db))"
    and mem: "map_of (deliveries db) i = Some d0"
  shows "distinct (map fst (deliveries (snd (snd (snd (assign_delivery post ui now new_id db))))))
       \<and> map_of (deliveries (snd (snd (snd (assign_delivery post ui now new_id db))))) i = Some d0"
proof -
  have "i \<in> set (map fst (deliveries db))" using mem by (force dest: map_of_SomeD)
  then have "new_id \<notin> set (map fst (deliveries db)) \<Longrightarrow> new_id \<noteq> i" by auto
  then show ?thesis using dist mem
    by (auto simp: assign_delivery_def Let_def map_of_append_fresh split: option.splits)
qed

lemma manage_keeps: "deliveries (snd (snd (manage_drivers form db))) = deliveries db"
  by (auto simp: manage_drivers_def Let_def split: prod.splits)

lemma events_keep:
  assumes "distinct (map fst (deliveries db))"
    and "map_of (deliveries db) i = Some d0" and "unlisted d0"
  shows "distinct (map fst (deliveries (run_events post evs db)))
       \<and> map_of (deliveries (run_events post evs db)) i = Some d0"
  using assms
proof (induction evs arbitrary: db)
  case Nil
  then show ?case by simp
next
  case (Cons ev evs)
  have "distinct (map fst (deliveries (apply_event post ev db)))
        \<and> map_of (deliveries (apply_event post ev db)) i = Some d0"
  proof (cases ev)
    case (Driver_run ui now)
    then show ?thesis using driver_page_keeps[OF Cons.prems] by simp
  next
    case (Assign_run ui now new_id)
    then show ?thesis using assign_keeps[OF Cons.prems(1,2)] by simp
  next
    case (Manage_run form)
    then show ?thesis using Cons.prems by (simp add: manage_keeps)
  qed
  then show ?case using Cons.IH[of "apply_event post ev db"] Cons.prems(3) by simp
qed

lemma created_kept:
  assumes dist: "distinct (map fst (deliveries db))"
    and ok: "assign_delivery post ui now new_id db
             = (Completed, [Success ''Delivery assigned!''], logs, db1)"
  shows "distinct (map fst (deliveries (run_events post evs db1)))
       \<and> map_of (deliveries (run_events post evs db1)) new_id = Some (new_delivery ui now)"
proof -
  from assign_success_conv[OF ok]
  have fresh: "new_id \<notin> set (map fst (deliveries db))"
    and db1: "db1 = db\<lparr>deliveries := deliveries db @ [(new_id, new_delivery ui now)]\<rparr>"
    by simp_all
  have d: "distinct (map fst (deliveries db1))" using dist fresh db1 by simp
  have m: "map_of (deliveries db1) new_id = Some (new_delivery ui now)"
    using db1 map_of_append_fresh[OF fresh] by simp
  have u: "unlisted (new_delivery ui now)"
    by (simp add: unlisted_def new_delivery_def delivery_data_def)
  from events_keep[OF d m u] show ?thesis .
qed

subsection \<open>Evaluation of the examples\<close>

lemma strip_inv9: "strip ''INV-9'' = ''INV-9''"
  by code_simp

lemma example_valid: "valid_request example_request"
  by (simp add: valid_request_def example_request_def strip_inv9)

lemma example_first:
  "assign_delivery post example_request ''t1'' ''n1'' dispatch_store
   = (Completed, [Success ''Delivery assigned!''],
      notify_driver post ''Acme'' ''5th Ave'' ''INV-9''
        [''name'' \<mapsto> Str ''Al'', ''code'' \<mapsto> Str ''d1'', ''phone'' \<mapsto> Str [],
         ''fcm_token'' \<mapsto> Str ''tok1''],
      dispatch_store\<lparr>deliveries := [(''n1'', new_delivery example_request ''t1'')]\<rparr>)"
  using assign_success[of example_request dispatch_store "''n1''" _ post "''t1''"] example_valid
  by (simp add: dispatch_store_def example_request_def strip_inv9 invoice_exists_def)

lemma dispatch_distinct: "distinct (map fst (deliveries dispatch_store))"
  by (simp add: dispatch_store_def)

lemma example_first_store:
  "snd (snd (snd (assign_delivery post example_request ''t1'' ''n1'' dispatch_store)))
   = dispatch_store\<lparr>deliveries := [(''n1'', new_delivery example_request ''t1'')]\<rparr>"
  by (simp add: example_first)

lemma lower_inv9: "lower ''inv-9'' = lower ''INV-9''" "strip ''inv-9'' = ''inv-9''"
  by code_simp+


subsection \<open>The status of a created delivery\<close>

text \<open>
  Claim C2, evaluated. The request for client Acme, location 5th Ave, invoice INV-9 and
  driver d1 succeeds at time \<open>t1\<close>; the record inserted has the creation time \<open>t1\<close> and
  the status \<open>Assigned\<close>, not \<open>pending\<close>, and the dashboard's query for driver d1 selects
  nothing.
\<close>

theorem created_status_assigned:
  "fst (snd (assign_delivery failing_post example_request ''t1'' ''n1'' dispatch_store))
     = [Success ''Delivery assigned!'']
   \<and> delivery_field
        (snd (snd (snd (assign_delivery failing_post example_request ''t1'' ''n1'' dispatch_store))))
        ''n1'' ''status'' = Some (Str ''Assigned'')
   \<and> Str ''Assigned'' \<noteq> Str ''pending''
   \<and> delivery_field
        (snd (snd (snd (assign_delivery failing_post example_request ''t1'' ''n1'' dispatch_store))))
        ''n1'' ''time'' = Some (Str ''t1'')
   \<and> query_deliveries ''d1''
        (deliveries (snd (snd (snd (assign_delivery failing_post example_request ''t1'' ''n1''
                                      dispatch_store))))) = []"
  by (simp only: example_first fst_conv snd_conv)
     (simp add: delivery_field_def new_delivery_def delivery_data_def
        example_request_def strip_inv9 query_deliveries_def listed_def)

text \<open>
  Claim C3. A delivery created by Assign Delivery is stored with the status \<open>Assigned\<close>,
  which is none of the three statuses the dashboard selects on. After every history of
  page runs the delivery still has that status, the dashboard's query lists it for no
  driver, no run of the dashboard changes it, and no transition on it writes.
\<close>

theorem assigned_never_listed:
  assumes dist: "distinct (map fst (deliveries db))"
    and ok: "assign_delivery post ui now new_id db
             = (Completed, [Success ''Delivery assigned!''], logs, db1)"
  shows "delivery_field (run_events post evs db1) new_id ''status'' = Some (Str ''Assigned'')
       \<and> Str ''Assigned'' \<notin> set [Str ''pending'', Str ''accepted'', Str ''in_transit'']
       \<and> (\<forall>code. new_id \<notin> set (map fst (query_deliveries code
                                          (deliveries (run_events post evs db1)))))
       \<and> (\<forall>dui now'. map_of (deliveries (snd (snd (driver_page dui now'
                                                      (run_events post evs db1))))) new_id
             = map_of (deliveries (run_events post evs db1)) new_id)
       \<and> (\<forall>code a now'. fst (transition code new_id a now' (run_events post evs db1)) \<noteq> Rerun)"
proof -
  let ?db = "run_events post evs db1"
  let ?d0 = "new_delivery ui now"
  from created_kept[OF dist ok, of evs]
  have d: "distinct (map fst (deliveries ?db))"
    and m: "map_of (deliveries ?db) new_id = Some ?d0" by simp_all
  have st: "?d0 ''status'' = Some (Str ''Assigned'')"
    by (simp add: new_delivery_def delivery_data_def)
  have u: "unlisted ?d0" using st by (simp add: unlisted_def)
  have 1: "delivery_field ?db new_id ''status'' = Some (Str ''Assigned'')"
    using m st by (simp add: delivery_field_def)
  have 2: "\<forall>code. new_id \<notin> set (map fst (query_deliveries code (deliveries ?db)))"
  proof (intro allI notI)
    fix code assume "new_id \<in> set (map fst (query_deliveries code (deliveries ?db)))"
    then obtain x where x: "(new_id, x) \<in> set (deliveries ?db)" and l: "listed code x"
      by (auto simp: query_deliveries_def)
    from x d m have "x = ?d0" by simp
    with l st show False by (simp add: listed_def)
  qed
  have 3: "\<forall>dui now'. map_of (deliveries (snd (snd (driver_page dui now' ?db)))) new_id
             = map_of (deliveries ?db) new_id"
    using driver_page_keeps[OF d m u] m by simp
  have 4: "\<forall>code a now'. fst (transition code new_id a now' ?db) \<noteq> Rerun"
  proof (intro allI notI)
    fix code a now' assume "fst (transition code new_id a now' ?db) = Rerun"
    from transition_rerun[OF d m this] have "table_allows (?d0 ''status'') a" by blast
    then show False unfolding st by (cases a) simp_all
  qed
  show ?thesis using 1 2 3 4 by simp
qed

theorem assigned_never_listed_witness:
  "delivery_field
     (run_events failing_post [Driver_run (action_ui ''d1'' ''n1'' Accept) ''t2'']
        (snd (snd (snd (assign_delivery failing_post example_request ''t1'' ''n1''
                          dispatch_store)))))
     ''n1'' ''status'' = Some (Str ''Assigned'')
   \<and> fst (transition ''d1'' ''n1'' Accept ''t3''
            (run_events failing_post [Driver_run (action_ui ''d1'' ''n1'' Accept) ''t2'']
               (snd (snd (snd (assign_delivery failing_post example_request ''t1'' ''n1''
                                 dispatch_store)))))) \<noteq> Rerun"
  using assigned_never_listed[OF dispatch_distinct example_first,
          of failing_post "[Driver_run (action_ui ''d1'' ''n1'' Accept) ''t2'']"]
  by (simp only: example_first_store) blast

subsection \<open>Duplicate invoices\<close>

text \<open>
  Claim C4. For a request that passes the input checks, with a driver registered, the
  run ends with the duplicate-invoice error, inserting nothing, exactly when some stored
  delivery has an \<open>invoice\<close> field equal to the stripped invoice of the request. A second
  request with the invoice of a delivery created before is such a request.
\<close>

theorem duplicate_invoice_rejected:
  assumes "drivers db \<noteq> []" and "valid_request ui"
  shows "(assign_delivery post ui now new_id db
            = (Completed, [duplicate_invoice (strip (in_invoice_number ui))], [], db))
         = (\<exists>p \<in> set (deliveries db).
              snd p ''invoice'' = Some (Str (strip (in_invoice_number ui))))"
proof -
  have e: "invoice_exists (strip (in_invoice_number ui)) (deliveries db)
           = (\<exists>p \<in> set (deliveries db).
                snd p ''invoice'' = Some (Str (strip (in_invoice_number ui))))"
    by (simp add: invoice_exists_def list_ex_iff split_beta)
  show ?thesis
  proof (cases "invoice_exists (strip (in_invoice_number ui)) (deliveries db)")
    case True
    then show ?thesis using assign_duplicate[OF assms True] e by simp
  next
    case False
    then have "assign_delivery post ui now new_id db
               \<noteq> (Completed, [duplicate_invoice (strip (in_invoice_number ui))], [], db)"
      using assms
      by (simp add: assign_delivery_def valid_request_def Let_def duplicate_invoice_def
          split: option.splits)
    then show ?thesis using False e by simp
  qed
qed

theorem duplicate_invoice_rejected_witness:
  "assign_delivery failing_post example_request ''t2'' ''n2''
     (snd (snd (snd (assign_delivery failing_post example_request ''t1'' ''n1'' dispatch_store))))
   = (Completed, [duplicate_invoice ''INV-9''], [],
      snd (snd (snd (assign_delivery failing_post example_request ''t1'' ''n1'' dispatch_store))))"
proof -
  let ?db1 = "dispatch_store\<lparr>deliveries := [(''n1'', new_delivery example_request ''t1'')]\<rparr>"
  have d: "drivers ?db1 \<noteq> []" by (simp add: dispatch_store_def)
  have ex: "\<exists>p \<in> set (deliveries ?db1).
              snd p ''invoice'' = Some (Str (strip (in_invoice_number example_request)))"
    by (simp add: new_delivery_def delivery_data_def)
  from duplicate_invoice_rejected[OF d example_valid, of failing_post "''t2''" "''n2''"] ex
  have "assign_delivery failing_post example_request ''t2'' ''n2'' ?db1
        = (Completed, [duplicate_invoice (strip (in_invoice_number example_request))], [], ?db1)"
    by blast
  moreover have "strip (in_invoice_number example_request) = ''INV-9''"
    by (simp add: example_request_def strip_inv9)
  ultimately show ?thesis by (simp only: example_first_store)
qed

subsection \<open>The fields the dashboard reads\<close>

text \<open>
  Claim C6. A delivery created by Assign Delivery holds the client under \<open>client\<close> and
  the invoice under \<open>invoice\<close>, and has no field \<open>client_name\<close> or \<open>invoice_number\<close>: after
  every history, the lines of the dashboard for it show no invoice and no client.
\<close>

theorem created_fields_unread:
  assumes dist: "distinct (map fst (deliveries db))"
    and ok: "assign_delivery post ui now new_id db
             = (Completed, [Success ''Delivery assigned!''], logs, db1)"
  shows "delivery_field (run_events post evs db1) new_id ''client'' = Some (Str (in_client_name ui))
       \<and> delivery_field (run_events post evs db1) new_id ''invoice''
           = Some (Str (strip (in_invoice_number ui)))
       \<and> delivery_field (run_events post evs db1) new_id ''client_name'' = None
       \<and> delivery_field (run_events post evs db1) new_id ''invoice_number'' = None
       \<and> (\<exists>d. map_of (deliveries (run_events post evs db1)) new_id = Some d
              \<and> display d = [Subheader ''Invoice: '' None, Write ''Client: '' None,
                              Write ''Location: '' (Some (Str (in_delivery_location ui))),
                              Write ''Status: '' (Some (Str ''Assigned''))])"
proof -
  from created_kept[OF dist ok, of evs]
  have m: "map_of (deliveries (run_events post evs db1)) new_id = Some (new_delivery ui now)"
    by simp
  then show ?thesis
    by (simp add: delivery_field_def new_delivery_def delivery_data_def display_def)
qed

theorem created_fields_unread_witness:
  "delivery_field
     (run_events failing_post []
        (snd (snd (snd (assign_delivery failing_post example_request ''t1'' ''n1''
                          dispatch_store)))))
     ''n1'' ''client_name'' = None
   \<and> delivery_field
     (run_events failing_post []
        (snd (snd (snd (assign_delivery failing_post example_request ''t1'' ''n1''
                          dispatch_store)))))
     ''n1'' ''client'' = Some (Str ''Acme'')"
  using created_fields_unread[OF dispatch_distinct example_first, of failing_post "[]"]
  by (simp only: example_first_store) (simp add: example_request_def)

subsection \<open>Notification failures\<close>

text \<open>
  Claim C7. When the post of the notification fails, the run of Assign Delivery that
  sent it still inserts the delivery and reports success; the failure is the line printed
  by the thread and nothing else. Whatever the notification service does, the end of the
  run, its messages and the store are the same.
\<close>

theorem notification_failure_swallowed:
  assumes v: "valid_request ui"
    and ne: "\<not> invoice_exists (strip (in_invoice_number ui)) (deliveries db)"
    and fresh: "new_id \<notin> set (map fst (deliveries db))"
    and drv: "map_of (drivers db) (in_driver_choice ui) = Some drv"
    and tok: "drv ''fcm_token'' = Some (Str token)" and tne: "token \<noteq> []"
    and fail: "post \<lparr>push_to = Str token, push_title = ''New Delivery Assigned'',
                     push_body = in_client_name ui @ '' - '' @ in_delivery_location ui,
                     push_data = [(''invoice'', strip (in_invoice_number ui))]\<rparr> = Failure err"
  shows "assign_delivery post ui now new_id db
           = (Completed, [Success ''Delivery assigned!''], [''Push error: '' @ err],
              db\<lparr>deliveries := deliveries db @ [(new_id, new_delivery ui now)]\<rparr>)
       \<and> (\<forall>post'. fst (assign_delivery post' ui now new_id db) = Completed
             \<and> fst (snd (assign_delivery post' ui now new_id db)) = [Success ''Delivery assigned!'']
             \<and> snd (snd (snd (assign_delivery post' ui now new_id db)))
                 = db\<lparr>deliveries := deliveries db @ [(new_id, new_delivery ui now)]\<rparr>)"
proof -
  have n: "notify_driver post (in_client_name ui) (in_delivery_location ui)
             (strip (in_invoice_number ui)) drv = [''Push error: '' @ err]"
    using tok tne fail
    by (simp add: notify_driver_def send_push_notification_async_def worker_def)
  have a: "assign_delivery post ui now new_id db
           = (Completed, [Success ''Delivery assigned!''], [''Push error: '' @ err],
              db\<lparr>deliveries := deliveries db @ [(new_id, new_delivery ui now)]\<rparr>)"
    using assign_success[OF v ne fresh drv, of post now] n by simp
  then show ?thesis using assign_independent[of _ ui now new_id db post] by simp
qed

theorem notification_failure_swallowed_witness:
  "assign_delivery failing_post example_request ''t1'' ''n1'' dispatch_store
   = (Completed, [Success ''Delivery assigned!''], [''Push error: timeout''],
      dispatch_store\<lparr>deliveries := [(''n1'', new_delivery example_request ''t1'')]\<rparr>)"
proof -
  have ne: "\<not> invoice_exists (strip (in_invoice_number example_request)) (deliveries dispatch_store)"
    by (simp add: invoice_exists_def dispatch_store_def)
  have fresh: "''n1'' \<notin> set (map fst (deliveries dispatch_store))"
    by (simp add: dispatch_store_def)
  have drv: "map_of (drivers dispatch_store) (in_driver_choice example_request)
             = Some [''name'' \<mapsto> Str ''Al'', ''code'' \<mapsto> Str ''d1'', ''phone'' \<mapsto> Str [],
                     ''fcm_token'' \<mapsto> Str ''tok1'']"
    by (simp add: dispatch_store_def example_request_def)
  have tok: "[''name'' \<mapsto> Str ''Al'', ''code'' \<mapsto> Str ''d1'', ''phone'' \<mapsto> Str [],
              ''fcm_token'' \<mapsto> Str ''tok1''] ''fcm_token'' = Some (Str ''tok1'')"
    by simp
  have tne: "''tok1'' \<noteq> []" by simp
  have fail: "failing_post \<lparr>push_to = Str ''tok1'', push_title = ''New Delivery Assigned'',
                push_body = in_client_name example_request @ '' - ''
                            @ in_delivery_location example_request,
                push_data = [(''invoice'', strip (in_invoice_number example_request))]\<rparr>
              = Failure ''timeout''"
    by (simp add: failing_post_def)
  from notification_failure_swallowed[where post = failing_post and now = "''t1''",
         OF example_valid ne fresh drv tok tne fail]
  show ?thesis by (simp add: dispatch_store_def)
qed

subsection \<open>Invoices that differ in letter case\<close>

lemma isspace_lower_char: "isspace (lower_char c) = isspace c"
  by (auto simp: isspace_def lower_char_def Let_def)

lemma lower_char_space: "isspace c \<Longrightarrow> lower_char c = c"
  by (auto simp: isspace_def lower_char_def Let_def)

lemma dropWhile_lower: "dropWhile isspace (lower s) = lower (dropWhile isspace s)"
  by (induction s) (simp_all add: lower_def isspace_lower_char)

lemma takeWhile_lower: "takeWhile isspace (lower s) = takeWhile isspace s"
  by (induction s) (simp_all add: lower_def isspace_lower_char lower_char_space)

lemma rev_lower: "rev (lower s) = lower (rev s)"
  by (simp add: lower_def rev_map)

lemma strip_lower: "strip (lower s) = lower (strip s)"
  by (simp add: strip_def dropWhile_lower rev_lower)

lemma strip_decomp:
  "s = takeWhile isspace s @ strip s @ rev (takeWhile isspace (rev (dropWhile isspace s)))"
proof -
  let ?x = "rev (dropWhile isspace s)"
  have "?x = takeWhile isspace ?x @ dropWhile isspace ?x" by simp
  then have "rev ?x = rev (dropWhile isspace ?x) @ rev (takeWhile isspace ?x)"
    by (metis rev_append)
  then have "dropWhile isspace s = strip s @ rev (takeWhile isspace ?x)"
    by (simp add: strip_def)
  then show ?thesis by (metis takeWhile_dropWhile_id)
qed

lemma case_variant_strip:
  assumes l: "lower s = lower t" and st: "strip s = strip t"
  shows "s = t"
proof -
  have a: "takeWhile isspace s = takeWhile isspace t"
    using l takeWhile_lower[of s] takeWhile_lower[of t] by simp
  have "takeWhile isspace (rev (dropWhile isspace s))
        = takeWhile isspace (rev (dropWhile isspace (lower s)))"
    by (simp add: dropWhile_lower rev_lower takeWhile_lower)
  moreover have "takeWhile isspace (rev (dropWhile isspace t))
        = takeWhile isspace (rev (dropWhile isspace (lower t)))"
    by (simp add: dropWhile_lower rev_lower takeWhile_lower)
  ultimately have b: "takeWhile isspace (rev (dropWhile isspace s))
        = takeWhile isspace (rev (dropWhile isspace t))" using l by simp
  show ?thesis using strip_decomp[of s] strip_decomp[of t] a b st by simp
qed


lemma search_match_case:
  "lower s = lower t \<Longrightarrow>
   search_match contains q (d(''invoice'' \<mapsto> Str (strip s)))
   = search_match contains q (d(''invoice'' \<mapsto> Str (strip t)))"
  using strip_lower[of s] strip_lower[of t] by (simp add: search_match_def)

text \<open>
  Claim C10. Two requests whose invoices differ, and differ only in letter case, have
  different stripped invoices; when neither invoice is in the store both runs succeed and
  the store then holds both, while the search of the audit view, which lower-cases the
  invoice, cannot tell the two records apart.
\<close>

theorem case_variants_both_created:
  assumes diff: "in_invoice_number ui1 \<noteq> in_invoice_number ui2"
    and same: "lower (in_invoice_number ui1) = lower (in_invoice_number ui2)"
    and v1: "valid_request ui1" and v2: "valid_request ui2"
    and drv1: "map_of (drivers db) (in_driver_choice ui1) = Some drv1"
    and drv2: "map_of (drivers db) (in_driver_choice ui2) = Some drv2"
    and new1: "\<not> invoice_exists (strip (in_invoice_number ui1)) (deliveries db)"
    and new2: "\<not> invoice_exists (strip (in_invoice_number ui2)) (deliveries db)"
    and id1: "id1 \<notin> set (map fst (deliveries db))"
    and id2: "id2 \<notin> set (map fst (deliveries db))" and ids: "id1 \<noteq> id2"
  shows "strip (in_invoice_number ui1) \<noteq> strip (in_invoice_number ui2)
       \<and> fst (snd (assign_delivery post ui1 now1 id1 db)) = [Success ''Delivery assigned!'']
       \<and> fst (snd (assign_delivery post ui2 now2 id2
                      (snd (snd (snd (assign_delivery post ui1 now1 id1 db))))))
           = [Success ''Delivery assigned!'']
       \<and> map (\<lambda>p. snd p ''invoice'')
            (deliveries (snd (snd (snd (assign_delivery post ui2 now2 id2
                                         (snd (snd (snd (assign_delivery post ui1 now1 id1 db)))))))))
           = map (\<lambda>p. snd p ''invoice'') (deliveries db)
             @ [Some (Str (strip (in_invoice_number ui1))),
                Some (Str (strip (in_invoice_number ui2)))]
       \<and> (\<forall>contains q d.
             search_match contains q (d(''invoice'' \<mapsto> Str (strip (in_invoice_number ui1))))
             = search_match contains q (d(''invoice'' \<mapsto> Str (strip (in_invoice_number ui2)))))"
proof -
  let ?db1 = "db\<lparr>deliveries := deliveries db @ [(id1, new_delivery ui1 now1)]\<rparr>"
  have ne: "strip (in_invoice_number ui1) \<noteq> strip (in_invoice_number ui2)"
    using case_variant_strip[OF same] diff by blast
  have a1: "assign_delivery post ui1 now1 id1 db
            = (Completed, [Success ''Delivery assigned!''],
               notify_driver post (in_client_name ui1) (in_delivery_location ui1)
                 (strip (in_invoice_number ui1)) drv1, ?db1)"
    by (rule assign_success[OF v1 new1 id1 drv1])
  have new2': "\<not> invoice_exists (strip (in_invoice_number ui2)) (deliveries ?db1)"
    using new2 ne by (simp add: invoice_exists_def new_delivery_def delivery_data_def)
  have id2': "id2 \<notin> set (map fst (deliveries ?db1))" using id2 ids by simp
  have drv2': "map_of (drivers ?db1) (in_driver_choice ui2) = Some drv2" using drv2 by simp
  have a2: "assign_delivery post ui2 now2 id2 ?db1
            = (Completed, [Success ''Delivery assigned!''],
               notify_driver post (in_client_name ui2) (in_delivery_location ui2)
                 (strip (in_invoice_number ui2)) drv2,
               ?db1\<lparr>deliveries := deliveries ?db1 @ [(id2, new_delivery ui2 now2)]\<rparr>)"
    by (rule assign_success[OF v2 new2' id2' drv2'])
  have inv: "new_delivery ui1 now1 ''invoice'' = Some (Str (strip (in_invoice_number ui1)))"
    "new_delivery ui2 now2 ''invoice'' = Some (Str (strip (in_invoice_number ui2)))"
    by (simp_all add: new_delivery_def delivery_data_def)
  show ?thesis using ne search_match_case[OF same] inv by (simp add: a1 a2)
qed

theorem case_variants_both_created_witness:
  "fst (snd (assign_delivery failing_post example_request ''t2'' ''n2''
          (snd (snd (snd (assign_delivery failing_post
                            (example_request\<lparr>in_invoice_number := ''inv-9''\<rparr>) ''t1'' ''n1''
                            dispatch_store))))))
   = [Success ''Delivery assigned!'']
   \<and> map (\<lambda>p. snd p ''invoice'')
       (deliveries (snd (snd (snd (assign_delivery failing_post example_request ''t2'' ''n2''
          (snd (snd (snd (assign_delivery failing_post
                            (example_request\<lparr>in_invoice_number := ''inv-9''\<rparr>) ''t1'' ''n1''
                            dispatch_store)))))))))
     = [Some (Str ''inv-9''), Some (Str ''INV-9'')]"
proof -
  let ?ui1 = "example_request\<lparr>in_invoice_number := ''inv-9''\<rparr>"
  have diff: "in_invoice_number ?ui1 \<noteq> in_invoice_number example_request"
    by (simp add: example_request_def)
  have same: "lower (in_invoice_number ?ui1) = lower (in_invoice_number example_request)"
    by (simp add: example_request_def lower_inv9)
  have v1: "valid_request ?ui1"
    by (simp add: valid_request_def example_request_def lower_inv9)
  have drv1: "map_of (drivers dispatch_store) (in_driver_choice ?ui1)
              = Some [''name'' \<mapsto> Str ''Al'', ''code'' \<mapsto> Str ''d1'', ''phone'' \<mapsto> Str [],
                      ''fcm_token'' \<mapsto> Str ''tok1'']"
    by (simp add: dispatch_store_def example_request_def)
  have drv2: "map_of (drivers dispatch_store) (in_driver_choice example_request)
              = Some [''name'' \<mapsto> Str ''Al'', ''code'' \<mapsto> Str ''d1'', ''phone'' \<mapsto> Str [],
                      ''fcm_token'' \<mapsto> Str ''tok1'']"
    by (simp add: dispatch_store_def example_request_def)
  have new1: "\<not> invoice_exists (strip (in_invoice_number ?ui1)) (deliveries dispatch_store)"
    by (simp add: invoice_exists_def dispatch_store_def)
  have new2: "\<not> invoice_exists (strip (in_invoice_number example_request))
                 (deliveries dispatch_store)"
    by (simp add: invoice_exists_def dispatch_store_def)
  have id1: "''n1'' \<notin> set (map fst (deliveries dispatch_store))"
    and id2: "''n2'' \<notin> set (map fst (deliveries dispatch_store))"
    by (simp_all add: dispatch_store_def)
  have ids: "''n1'' \<noteq> ''n2''" by simp
  have e1: "strip (in_invoice_number ?ui1) = ''inv-9''"
    by (simp add: example_request_def lower_inv9)
  have e2: "strip (in_invoice_number example_request) = ''INV-9''"
    by (simp add: example_request_def strip_inv9)
  have e3: "deliveries dispatch_store = []" by (simp add: dispatch_store_def)
  from case_variants_both_created[where post = failing_post and ?now1.0 = "''t1''"
         and ?now2.0 = "''t2''", OF diff same v1 example_valid drv1 drv2 new1 new2 id1 id2 ids]
  show ?thesis unfolding e1 e2 e3 by simp
qed

subsection \<open>The driver registry\<close>








end
